theory Spec2Isabelle
  imports Main "HOL-Library.Code_Target_Nat"
begin

section \<open>Strings of the runtime\<close>

text \<open>
  A JavaScript string is a sequence of UTF-16 code units. The log is read with
  \<^verbatim>\<open>fs.readFileSync(logFile, 'utf-8')\<close>, so the model starts from the decoded string.
\<close>

type_synonym jsstring = "nat list"

definition js :: "string \<Rightarrow> jsstring" where
  "js s = map of_char s"

text \<open>
  \<^verbatim>\<open>String.prototype.trim\<close> and the class \<^verbatim>\<open>\s\<close> use the same set: WhiteSpace
  (TAB, VT, FF, SP, NBSP, U+1680, U+2000..U+200A, U+202F, U+205F, U+3000, U+FEFF) and
  LineTerminator (LF, CR, U+2028, U+2029).
\<close>

definition isLineTerminator :: "nat \<Rightarrow> bool" where
  "isLineTerminator c = (c = 10 \<or> c = 13 \<or> c = 8232 \<or> c = 8233)"

definition isWhiteSpace :: "nat \<Rightarrow> bool" where
  "isWhiteSpace c =
     (c = 9 \<or> c = 11 \<or> c = 12 \<or> c = 32 \<or> c = 160 \<or> c = 5760 \<or> (8192 \<le> c \<and> c \<le> 8202)
      \<or> c = 8239 \<or> c = 8287 \<or> c = 12288 \<or> c = 65279 \<or> isLineTerminator c)"

definition isDigit :: "nat \<Rightarrow> bool" where
  "isDigit c = (48 \<le> c \<and> c \<le> 57)"

definition trim :: "jsstring \<Rightarrow> jsstring" where
  "trim s = rev (dropWhile isWhiteSpace (rev (dropWhile isWhiteSpace s)))"

fun startsWith :: "jsstring \<Rightarrow> jsstring \<Rightarrow> bool" where
  "startsWith s [] = True"
| "startsWith [] (n # ns) = False"
| "startsWith (c # cs) (n # ns) = (c = n \<and> startsWith cs ns)"

text \<open>\<^verbatim>\<open>s.includes(needle)\<close>: the needle occurs at some index of \<open>s\<close>.\<close>

fun includes_str :: "jsstring \<Rightarrow> jsstring \<Rightarrow> bool" where
  "includes_str [] needle = startsWith [] needle"
| "includes_str (c # cs) needle = (startsWith (c # cs) needle \<or> includes_str cs needle)"

text \<open>\<^verbatim>\<open>content.split('\n')\<close>: always at least one piece; the empty string gives one empty line.\<close>

fun split :: "jsstring \<Rightarrow> jsstring list" where
  "split [] = [[]]"
| "split (c # cs) =
     (if c = 10 then [] # split cs
      else (case split cs of [] \<Rightarrow> [[c]] | l # ls \<Rightarrow> (c # l) # ls))"

text \<open>\<^verbatim>\<open>lines.join(sep)\<close>.\<close>

fun join :: "jsstring list \<Rightarrow> jsstring \<Rightarrow> jsstring" where
  "join [] sep = []"
| "join [l] sep = l"
| "join (l # m # ls) sep = l @ sep @ join (m # ls) sep"

text \<open>\<^verbatim>\<open>'-'.repeat(56)\<close>.\<close>

definition repeat :: "jsstring \<Rightarrow> nat \<Rightarrow> jsstring" where
  "repeat s n = concat (replicate n s)"

text \<open>A counter inside a template literal: its decimal digits.\<close>

function toString :: "nat \<Rightarrow> jsstring" where
  "toString n = (if n < 10 then [48 + n] else toString (n div 10) @ [48 + n mod 10])"
  by pat_completeness auto
termination
  by (relation "measure (\<lambda>n. n)") auto

declare toString.simps [simp del]

section \<open>Regular expressions\<close>

text \<open>
  The constructs that occur in the regular expressions of the analyzer: a literal
  character, the classes \<^verbatim>\<open>\s\<close>, \<^verbatim>\<open>\d\<close> and \<^verbatim>\<open>.\<close>, the quantifiers \<^verbatim>\<open>+\<close> and \<^verbatim>\<open>*\<close> on one
  of these, concatenation, and alternation at top level. None has the \<^verbatim>\<open>g\<close> or \<^verbatim>\<open>y\<close> flag, so
  \<^verbatim>\<open>test\<close> keeps no position between calls.
\<close>

datatype atom = Chr nat | Space | Digit | Dot

datatype piece = One atom | Plus atom | Star atom

record RegExp =
  alternatives :: "piece list list"
  ignoreCase :: bool

text \<open>
  Canonicalize of the \<^verbatim>\<open>i\<close> flag (no \<^verbatim>\<open>u\<close> flag). Every literal of the source is ASCII, and
  Canonicalize never maps a code unit from 128 on to one below 128, so only the ASCII
  letters are folded here.
\<close>

definition canonicalize :: "nat \<Rightarrow> nat" where
  "canonicalize c = (if 97 \<le> c \<and> c \<le> 122 then c - 32 else c)"

fun atomMatches :: "bool \<Rightarrow> atom \<Rightarrow> nat \<Rightarrow> bool" where
  "atomMatches ic (Chr p) c = (if ic then canonicalize c = canonicalize p else c = p)"
| "atomMatches ic Space c = isWhiteSpace c"
| "atomMatches ic Digit c = isDigit c"
| "atomMatches ic Dot c = (\<not> isLineTerminator c)"

text \<open>
  A backtracking match of a sequence of pieces at the start of \<open>s\<close>: a quantifier takes a
  character and goes on, or gives way to the rest of the sequence.
\<close>

fun matchHere :: "bool \<Rightarrow> piece list \<Rightarrow> jsstring \<Rightarrow> bool" where
  "matchHere ic [] s = True"
| "matchHere ic (One a # ps) [] = False"
| "matchHere ic (One a # ps) (c # cs) = (atomMatches ic a c \<and> matchHere ic ps cs)"
| "matchHere ic (Plus a # ps) [] = False"
| "matchHere ic (Plus a # ps) (c # cs) = (atomMatches ic a c \<and> matchHere ic (Star a # ps) cs)"
| "matchHere ic (Star a # ps) [] = matchHere ic ps []"
| "matchHere ic (Star a # ps) (c # cs) =
     ((atomMatches ic a c \<and> matchHere ic (Star a # ps) cs) \<or> matchHere ic ps (c # cs))"

definition matchAny :: "RegExp \<Rightarrow> jsstring \<Rightarrow> bool" where
  "matchAny r s = list_ex (\<lambda>ps. matchHere (ignoreCase r) ps s) (alternatives r)"

text \<open>\<^verbatim>\<open>r.test(s)\<close>: a match starting at some index of \<open>s\<close>, the end included.\<close>

fun test :: "RegExp \<Rightarrow> jsstring \<Rightarrow> bool" where
  "test r [] = matchAny r []"
| "test r (c # cs) = (matchAny r (c # cs) \<or> test r cs)"

definition lit :: "string \<Rightarrow> piece list" where
  "lit s = map (\<lambda>c. One (Chr (of_char c))) s"

definition regexI :: "piece list list \<Rightarrow> RegExp" where
  "regexI alts = \<lparr>alternatives = alts, ignoreCase = True\<rparr>"

definition regex :: "piece list list \<Rightarrow> RegExp" where
  "regex alts = \<lparr>alternatives = alts, ignoreCase = False\<rparr>"

section \<open>The signature table\<close>

record Classification =
  type :: jsstring
  suggestion :: jsstring

record ErrorPattern = Classification +
  pattern :: RegExp

record ErrorBlock = Classification +
  lines :: "jsstring list"

definition ERROR_PATTERNS :: "ErrorPattern list" where
  "ERROR_PATTERNS = [
    \<lparr>type = js ''Missing Header or Source File'',
     suggestion = js ''Check if the file path is correct, or if required development libraries are missing (e.g., libssl-dev, zlib1g-dev).'',
     pattern = regexI [lit ''No such file or directory'']\<rparr>,
    \<lparr>type = js ''Link Error: Missing Library or Function'',
     suggestion = js ''Check if required libraries are missing (e.g., -lssl, -lcrypto), if library paths are in LDFLAGS/LDLIBS, or if function names are misspelled.'',
     pattern = regexI [lit ''undefined reference to'']\<rparr>,
    \<lparr>type = js ''Compiler Option Not Supported'',
     suggestion = js ''Your compiler version may be too old or too new. Check the options passed to the compiler in the Makefile for compatibility with your compiler version. Consider upgrading or downgrading the toolchain.'',
     pattern = regexI [lit ''unrecognized command line option'']\<rparr>,
    \<lparr>type = js ''Code Indentation Does Not Match Logic'',
     suggestion = js ''This is a code style/logic potential error. Add braces '{}' after 'if', 'for', 'while' statements to clarify code block scope. Or disable this warning (not recommended).'',
     pattern = regexI [lit ''misleading-indentation'']\<rparr>,
    \<lparr>type = js ''C Language Type Declaration Missing'',
     suggestion = js ''Variable or function declarations may be missing types (e.g., int). For kernel modules, it could be missing headers or ordering issues, or API changes between kernel versions.'',
     pattern = regexI [lit ''type specifier missing'']\<rparr>,
    \<lparr>type = js ''Makefile Build Error'',
     suggestion = js ''This is a Makefile rule execution failure. Check the specific error messages above, usually a subcommand (e.g., 'gcc', 'ld', 'sh') returned a non-zero status code.'',
     pattern = regexI [lit ''make['' @ [Plus Digit] @ lit '']:'' @ [Star Dot] @ lit ''Error '' @ [Plus Digit]]\<rparr>,
    \<lparr>type = js ''Linker Emulation Mode Error'',
     suggestion = js ''Your linker (ld) does not recognize the specific emulation mode. Check if LLVM and GNU toolchains are mixed, or ensure LD variable correctly points to LLVM's lld.'',
     pattern = regexI [lit ''target emulation unknown'']\<rparr>,
    \<lparr>type = js ''File Missing (Configuration May Not Be Generated)'',
     suggestion = js ''Check if 'make defconfig' or your device-specific config has been run. If 'make mrproper' was executed previously, reconfiguration is needed.'',
     pattern = regexI [lit ''cannot open'' @ [Star Dot] @ lit ''.gz'']\<rparr>,
    \<lparr>type = js ''Type Conversion Error (Pointer and Integer)'',
     suggestion = js ''This is a severe type mismatch. Usually the function return type does not match the expected type (e.g., returning int but expecting pointer). May need to modify source code or use a more compatible compiler.'',
     pattern = regexI [lit ''makes pointer from integer without a cast'']\<rparr>,
    \<lparr>type = js ''Clang Version Anomaly'',
     suggestion = js ''This is a compiler and KernelSU compatibility issue, usually occurs with KernelSU official version and SukiSU-Ultra. For official version, you can choose the old v0.9.5 version; for SukiSU-Ultra, it is generally recommended to switch to a different KernelSU branch.'',
     pattern = regexI [lit ''MODULE_IMPORT_NS(VFS_internal_I_am_really_a_filesystem_and_am_NOT_a_driver)'']\<rparr>,
    \<lparr>type = js ''Clang Version Anomaly'',
     suggestion = js ''The current build system version is too old. If using 20.04, please use 22.04, otherwise use latest.'',
     pattern = regexI [lit ''not found (required by clang)'']\<rparr>,
    \<lparr>type = js ''Kernel Defect'',
     suggestion = js ''Modify YYLTYPE yylloc to extern YYLTYPE yylloc in scripts/dtc/dtc-lexer.lex.c_shipped'',
     pattern = regexI [lit ''multiple definition of 'yylloc'' @ [One (Chr 39)]]\<rparr>,
    \<lparr>type = js ''Clang Compiler Error'',
     suggestion = js ''Switch to a different Clang compiler version'',
     pattern = regexI [lit ''assembler command failed with exit code 1'']\<rparr>,
    \<lparr>type = js ''Source Code Pointer Type Error'',
     suggestion = js ''Usually occurs after manual patching of cred.h, replace atomic_inc_not_zero with atomic_long_inc_not_zero in the code'',
     pattern = regexI [lit ''incompatible pointer types passing 'atomic_long_t *'' @ [One (Chr 39)]]\<rparr>,
    \<lparr>type = js ''Warning Treated as Error'',
     suggestion = js ''The compiler is treating warnings as errors due to -Werror flag. Either fix the underlying warning, or temporarily remove -Werror from CFLAGS/KBUILD_CFLAGS in the Makefile to allow compilation with warnings.'',
     pattern = regexI [lit ''-Werror'']\<rparr>,
    \<lparr>type = js ''Implicit Function Declaration'',
     suggestion = js ''A function is being used without being declared first. Include the proper header file, or add a function declaration/prototype before use. This may also indicate an API change in newer kernel versions.'',
     pattern = regexI [lit ''implicit declaration of function'']\<rparr>,
    \<lparr>type = js ''Array Index Out of Bounds'',
     suggestion = js ''Accessing an array element outside its declared size. Check array bounds and ensure indices are within valid range [0, size-1]. This could be a buffer overflow risk.'',
     pattern = regexI [lit ''array subscript'' @ [Star Dot] @ lit ''is outside array bounds'']\<rparr>,
    \<lparr>type = js ''Division by Zero'',
     suggestion = js ''Code attempts to divide by zero. Add proper checks to ensure the divisor is not zero before performing division operations.'',
     pattern = regexI [lit ''division by zero'']\<rparr>,
    \<lparr>type = js ''Null Pointer Dereference'',
     suggestion = js ''Attempting to access memory through a null pointer. Add null checks before dereferencing pointers, or ensure proper initialization before use.'',
     pattern = regexI [lit ''null pointer dereference'']\<rparr>,
    \<lparr>type = js ''Incompatible Implicit Declaration'',
     suggestion = js ''Function was implicitly declared with a signature that does not match its actual definition. Include the correct header or add a proper function prototype.'',
     pattern = regexI [lit ''incompatible implicit declaration'']\<rparr>,
    \<lparr>type = js ''Unused Variable'',
     suggestion = js ''A variable is declared but never used. Either use the variable, remove it, or mark it with __maybe_unused attribute to suppress the warning.'',
     pattern = regexI [lit ''unused variable'']\<rparr>,
    \<lparr>type = js ''Uninitialized Variable'',
     suggestion = js ''A variable is being used before being initialized. Initialize the variable at declaration or before first use.'',
     pattern = regexI [lit ''uninitialized variable'']\<rparr>,
    \<lparr>type = js ''Dereferencing Incomplete Type'',
     suggestion = js ''Attempting to access members of a struct/union that has not been fully defined. Include the header file containing the complete type definition.'',
     pattern = regexI [lit ''dereferencing pointer to incomplete type'']\<rparr>,
    \<lparr>type = js ''Conflicting Types'',
     suggestion = js ''A function or variable has been declared with different types in different places. Ensure all declarations match the definition exactly.'',
     pattern = regexI [lit ''conflicting types'']\<rparr>,
    \<lparr>type = js ''Symbol Redefinition'',
     suggestion = js ''A function, variable, or macro has been defined multiple times. Check for duplicate definitions or include guards in header files.'',
     pattern = regexI [lit ''redefinition of '']\<rparr>,
    \<lparr>type = js ''Deprecated API Usage'',
     suggestion = js ''Using a deprecated function or feature. Update the code to use the recommended replacement API or suppress with -Wno-deprecated-declarations (not recommended for long-term).'',
     pattern = regexI [lit ''deprecated'']\<rparr>,
    \<lparr>type = js ''Integer Overflow in Conversion'',
     suggestion = js ''A value is being converted to a type that cannot hold it. Check value ranges and use appropriate data types or add bounds checking.'',
     pattern = regexI [lit ''overflow in conversion'']\<rparr>,
    \<lparr>type = js ''Bit Shift Overflow'',
     suggestion = js ''The shift amount exceeds the bit width of the type. Ensure shift counts are less than the types bit width (e.g., < 32 for int32).'',
     pattern = regexI [lit ''shift count overflow'']\<rparr>,
    \<lparr>type = js ''Pointer to Integer Size Mismatch'',
     suggestion = js ''Converting a pointer to an integer type with different size. Use uintptr_t or intptr_t types which are guaranteed to hold pointer values.'',
     pattern = regexI [lit ''cast from pointer to integer of different size'']\<rparr>,
    \<lparr>type = js ''Variable Length Array (VLA) Used'',
     suggestion = js ''Using VLA which may cause stack overflow. Consider using dynamic allocation (kmalloc/vmalloc for kernel) instead, or ensure size is bounded.'',
     pattern = regexI [lit ''variable length array'']\<rparr>,
    \<lparr>type = js ''Address of Temporary Value'',
     suggestion = js ''Attempting to take the address of a temporary/rvalue. Store the value in a variable first, then take its address.'',
     pattern = regexI [lit ''taking address of temporary'']\<rparr>,
    \<lparr>type = js ''Missing Return Statement'',
     suggestion = js ''A non-void function may reach the end without returning a value. Add a return statement at the end of all code paths.'',
     pattern = regexI [lit ''control reaches end of non-void function'']\<rparr>,
    \<lparr>type = js ''Signed/Unsigned Comparison'',
     suggestion = js ''Comparing signed and unsigned integers. Cast one operand to match the others type, or ensure consistent types throughout.'',
     pattern = regexI [lit ''comparison of integer expressions of different signedness'']\<rparr>,
    \<lparr>type = js ''Sequence Point Violation'',
     suggestion = js ''Undefined behavior due to multiple modifications between sequence points. Break the expression into multiple statements.'',
     pattern = regexI [lit ''result of operation is still indeterminate'']\<rparr>,
    \<lparr>type = js ''Stack Protection Enabled But Failed'',
     suggestion = js ''Stack smashing detected or stack protector instrumentation failed. Check for buffer overflows in the code, or disable with -fno-stack-protector (not recommended).'',
     pattern = regexI [lit ''stack-protector'']\<rparr>,
    \<lparr>type = js ''Clock Skew Detected'',
     suggestion = js ''File timestamps are in the future. Synchronize system clock or touch the affected files to update timestamps.'',
     pattern = regexI [lit ''clock skew detected'']\<rparr>]"

section \<open>The classifier\<close>

text \<open>
  The loop of \<^verbatim>\<open>analyzeErrorBlock\<close> over a table: the first pattern that matches the text
  decides and ends the loop; with no match the initial values stay.
\<close>

fun classify :: "ErrorPattern list \<Rightarrow> jsstring \<Rightarrow> Classification" where
  "classify [] errorBlockText =
     \<lparr>type = js ''Uncommon Error'',
      suggestion = js ''Please follow the compilation output error results and try to resolve using search engines''\<rparr>"
| "classify (p # ps) errorBlockText =
     (if test (pattern p) errorBlockText
      then \<lparr>type = type p, suggestion = js ''Suggestion: '' @ suggestion p\<rparr>
      else classify ps errorBlockText)"

definition analyzeErrorBlock :: "jsstring list \<Rightarrow> Classification" where
  "analyzeErrorBlock ls = classify ERROR_PATTERNS (join ls [10])"

section \<open>The segmenter\<close>

record scan =
  errorCount :: nat
  errorBlocks :: "ErrorBlock list"
  currentErrorLines :: "jsstring list"
  processingError :: bool

definition errorStart :: RegExp where
  "errorStart = regexI [[One Space] @ lit ''error:'', [One Space] @ lit ''fatal error:'',
                        lit ''undefined reference to'']"

definition makeLine :: RegExp where
  "makeLine = regex [lit ''make['' @ [Plus Digit] @ lit '']:'']"

definition mkBlock :: "jsstring list \<Rightarrow> ErrorBlock" where
  "mkBlock ls = \<lparr>type = type (analyzeErrorBlock ls), suggestion = suggestion (analyzeErrorBlock ls),
                 lines = ls\<rparr>"

text \<open>The block pushed when an error block ends: only when one is open and has lines.\<close>

definition saveBlock :: "scan \<Rightarrow> ErrorBlock list" where
  "saveBlock st =
     (if processingError st \<and> currentErrorLines st \<noteq> []
      then errorBlocks st @ [mkBlock (currentErrorLines st)]
      else errorBlocks st)"

definition continuation :: "jsstring \<Rightarrow> bool" where
  "continuation line =
     (includes_str line (js ''note:'') \<or> (test makeLine line \<and> includes_str line (js ''***''))
      \<or> trim line \<noteq> [])"

text \<open>One iteration of the loop over the lines.\<close>

definition step :: "scan \<Rightarrow> jsstring \<Rightarrow> scan" where
  "step st line =
     (if test errorStart line
      then \<lparr>errorCount = errorCount st + 1, errorBlocks = saveBlock st,
            currentErrorLines = [line], processingError = True\<rparr>
      else if processingError st \<and> continuation line
      then st\<lparr>currentErrorLines := currentErrorLines st @ [line]\<rparr>
      else \<lparr>errorCount = errorCount st, errorBlocks = saveBlock st,
            currentErrorLines = [], processingError = False\<rparr>)"

definition initial :: scan where
  "initial = \<lparr>errorCount = 0, errorBlocks = [], currentErrorLines = [], processingError = False\<rparr>"

text \<open>The loop, then the last error block.\<close>

definition scanLines :: "jsstring list \<Rightarrow> scan" where
  "scanLines ls = (let st = foldl step initial ls in st\<lparr>errorBlocks := saveBlock st\<rparr>)"

section \<open>The engine\<close>

datatype event =
    Info jsstring
  | Warning jsstring
  | Error jsstring
  | WriteFile jsstring jsstring

record world =
  files :: "jsstring \<rightharpoonup> jsstring"
  trace :: "event list"

definition separator :: event where
  "separator = Info (repeat (js ''-'') 56)"

text \<open>The body of the first loop over the error blocks, \<open>idx\<close> counted from 0.\<close>

definition showBlock :: "nat \<Rightarrow> ErrorBlock \<Rightarrow> event list" where
  "showBlock idx block =
     [Info (js ''Error #'' @ toString (idx + 1) @ js '':'')]
     @ map (\<lambda>errorLine. Info (js ''  '' @ errorLine)) (lines block)
     @ [Info (js ''Error: '' @ type block),
        Warning (js ''Suggestion: '' @ suggestion block),
        separator]"

definition summaryBlock :: "nat \<Rightarrow> ErrorBlock \<Rightarrow> event list" where
  "summaryBlock idx block =
     [Info ([10] @ js ''  ['' @ toString (idx + 1) @ js ''] '' @ type block),
      Warning (js ''      '' @ suggestion block)]"

definition forEachIndexed :: "(nat \<Rightarrow> 'a \<Rightarrow> event list) \<Rightarrow> 'a list \<Rightarrow> event list" where
  "forEachIndexed body xs = concat (map (\<lambda>(idx, x). body idx x) (enumerate 0 xs))"

definition summary :: "scan \<Rightarrow> event list" where
  "summary st =
     (if errorCount st > 0
      then [Info (js ''Total found '' @ toString (errorCount st) @ js '' error(s).''),
            Warning (js ''Please carefully review the error messages and suggestions above.''),
            WriteFile (js ''have_error'') [],
            Info [],
            Info (repeat (js ''='') 56),
            Info (js ''                    Error Summary''),
            Info (repeat (js ''='') 56)]
           @ forEachIndexed summaryBlock (errorBlocks st)
           @ [Info ([10] @ repeat (js ''='') 56),
              Info (js ''Total: '' @ toString (errorCount st) @ js '' error(s)''),
              Info (repeat (js ''='') 56)]
      else [Info (js ''No errors found.'')])"

text \<open>What a run on an existing log emits after the line that names the file.\<close>

definition report :: "jsstring \<Rightarrow> event list" where
  "report content =
     (let st = scanLines (split content)
      in [separator] @ forEachIndexed showBlock (errorBlocks st) @ summary st @ [separator])"

fun perform :: "world \<Rightarrow> event \<Rightarrow> world" where
  "perform w (WriteFile p c) = w\<lparr>files := (files w)(p \<mapsto> c), trace := trace w @ [WriteFile p c]\<rparr>"
| "perform w e = w\<lparr>trace := trace w @ [e]\<rparr>"

text \<open>
  The file system holds regular files only: \<^verbatim>\<open>fs.existsSync\<close> is membership in its domain,
  and a read of an existing file gives its content.
\<close>

definition analyzeErrors :: "world \<Rightarrow> jsstring \<Rightarrow> world \<times> nat" where
  "analyzeErrors w logFile =
     (case files w logFile of
        None \<Rightarrow>
          (perform w (Error (js ''Log file '' @ [39] @ logFile @ [39] @ js '' does not exist.'')), 0)
      | Some content \<Rightarrow>
          (foldl perform w (Info (js ''Analyzing log file: '' @ logFile) # report content),
           errorCount (scanLines (split content))))"

section \<open>Notions used to state the properties\<close>

text \<open>The writes to the file system among some events.\<close>

fun isWriteFile :: "event \<Rightarrow> bool" where
  "isWriteFile (WriteFile p c) = True"
| "isWriteFile e = False"

definition fileWrites :: "event list \<Rightarrow> event list" where
  "fileWrites evs = filter isWriteFile evs"

text \<open>
  The error blocks that the loop and the last save still add, seen from the open block
  and the lines to come. It serves to reason about the loop line by line from the front.
\<close>

fun blocksFrom :: "jsstring list \<Rightarrow> bool \<Rightarrow> jsstring list \<Rightarrow> ErrorBlock list" where
  "blocksFrom cur open [] = (if open \<and> cur \<noteq> [] then [mkBlock cur] else [])"
| "blocksFrom cur open (line # ls) =
     (if test errorStart line
      then (if open \<and> cur \<noteq> [] then [mkBlock cur] else []) @ blocksFrom [line] True ls
      else if open \<and> continuation line then blocksFrom (cur @ [line]) open ls
      else (if open \<and> cur \<noteq> [] then [mkBlock cur] else []) @ blocksFrom [] False ls)"

text \<open>
  The segmenter as the specification's sentence on redundancy puts it: the only
  continuation rule is that a line with a non-empty trim continues an open incident.
\<close>

definition stepTrimOnly :: "scan \<Rightarrow> jsstring \<Rightarrow> scan" where
  "stepTrimOnly st line =
     (if test errorStart line
      then \<lparr>errorCount = errorCount st + 1, errorBlocks = saveBlock st,
            currentErrorLines = [line], processingError = True\<rparr>
      else if processingError st \<and> trim line \<noteq> []
      then st\<lparr>currentErrorLines := currentErrorLines st @ [line]\<rparr>
      else \<lparr>errorCount = errorCount st, errorBlocks = saveBlock st,
            currentErrorLines = [], processingError = False\<rparr>)"

definition scanTrimOnly :: "jsstring list \<Rightarrow> scan" where
  "scanTrimOnly ls = (let st = foldl stepTrimOnly initial ls in st\<lparr>errorBlocks := saveBlock st\<rparr>)"

text \<open>
  The trigger test as the specification words it: the line contains one of three fixed
  strings, the first two starting with a space character, letter case ignored.
\<close>

definition occursCI :: "jsstring \<Rightarrow> jsstring \<Rightarrow> bool" where
  "occursCI needle line = includes_str (map canonicalize line) (map canonicalize needle)"

definition specTrigger :: "jsstring \<Rightarrow> bool" where
  "specTrigger line =
     (occursCI (js '' error:'') line \<or> occursCI (js '' fatal error:'') line
      \<or> occursCI (js ''undefined reference to'') line)"

text \<open>A whitespace character and then the needle, letter case ignored, somewhere in the line.\<close>

fun spaceThenCI :: "jsstring \<Rightarrow> jsstring \<Rightarrow> bool" where
  "spaceThenCI needle [] = False"
| "spaceThenCI needle (c # cs) =
     ((isWhiteSpace c \<and> startsWith (map canonicalize cs) (map canonicalize needle))
      \<or> spaceThenCI needle cs)"

text \<open>The log of the end-to-end scenario: four lines, the third one empty.\<close>

definition scenarioLog :: jsstring where
  "scenarioLog =
     js ''foo.c: error: undefined reference to 'bar'' @ [39] @ [10]
     @ js ''note: declared here'' @ [10]
     @ [10]
     @ js ''baz.c: error: unrecognized command line option '-fxyz'' @ [39]"

text \<open>A file system that holds one log, and nothing emitted yet.\<close>

definition onlyLog :: "jsstring \<Rightarrow> jsstring \<Rightarrow> world" where
  "onlyLog logFile content = \<lparr>files = [logFile \<mapsto> content], trace = []\<rparr>"


section \<open>Strings: what the searches mean\<close>

lemma all_dropWhile_iff: "(\<forall>x\<in>set (dropWhile P s). P x) \<longleftrightarrow> (\<forall>x\<in>set s. P x)"
  by (induction s) auto

lemma trim_nonempty_iff: "trim s \<noteq> [] \<longleftrightarrow> (\<exists>c\<in>set s. \<not> isWhiteSpace c)"
proof -
  have "trim s = [] \<longleftrightarrow> (\<forall>x\<in>set (dropWhile isWhiteSpace s). isWhiteSpace x)"
    by (simp add: trim_def)
  then show ?thesis by (simp add: all_dropWhile_iff)
qed

lemma startsWith_iff: "startsWith s n \<longleftrightarrow> (\<exists>post. s = n @ post)"
  by (induction s n rule: startsWith.induct) auto

lemma includes_str_iff: "includes_str s n \<longleftrightarrow> (\<exists>pre post. s = pre @ n @ post)"
proof (induction s)
  case Nil
  then show ?case by (auto simp: startsWith_iff)
next
  case (Cons c cs)
  show ?case
  proof
    assume "includes_str (c # cs) n"
    then consider "startsWith (c # cs) n" | "includes_str cs n" by auto
    then show "\<exists>pre post. c # cs = pre @ n @ post"
    proof cases
      case 1
      then obtain post where "c # cs = n @ post" by (auto simp: startsWith_iff)
      then have "c # cs = [] @ n @ post" by simp
      then show ?thesis by blast
    next
      case 2
      then obtain pre post where "cs = pre @ n @ post" using Cons.IH by blast
      then have "c # cs = (c # pre) @ n @ post" by simp
      then show ?thesis by blast
    qed
  next
    assume "\<exists>pre post. c # cs = pre @ n @ post"
    then obtain pre post where e: "c # cs = pre @ n @ post" by blast
    show "includes_str (c # cs) n"
    proof (cases pre)
      case Nil
      with e have "\<exists>post. c # cs = n @ post" by auto
      then have "startsWith (c # cs) n" by (simp only: startsWith_iff)
      then show ?thesis by simp
    next
      case (Cons a pre')
      with e have "cs = pre' @ n @ post" by simp
      then show ?thesis using Cons.IH by auto
    qed
  qed
qed

lemma includes_nonblank:
  assumes "includes_str line n" and "c \<in> set n" and "\<not> isWhiteSpace c"
  shows "trim line \<noteq> []"
proof -
  from assms(1) obtain pre post where "line = pre @ n @ post"
    by (auto simp: includes_str_iff)
  with assms(2) have "c \<in> set line" by simp
  with assms(3) show ?thesis by (auto simp: trim_nonempty_iff)
qed

lemma note_nonblank: "includes_str line (js ''note:'') \<Longrightarrow> trim line \<noteq> []"
  using includes_nonblank [of line "js ''note:''" 110]
  by (simp add: js_def isWhiteSpace_def isLineTerminator_def)

lemma stars_nonblank: "includes_str line (js ''***'') \<Longrightarrow> trim line \<noteq> []"
  using includes_nonblank [of line "js ''***''" 42]
  by (simp add: js_def isWhiteSpace_def isLineTerminator_def)

lemma continuation_iff: "continuation line \<longleftrightarrow> trim line \<noteq> []"
  using note_nonblank stars_nonblank by (auto simp: continuation_def)


section \<open>The segmenter, line by line\<close>

lemma step_trigger:
  "test errorStart line \<Longrightarrow>
   step st line = \<lparr>errorCount = errorCount st + 1, errorBlocks = saveBlock st,
                   currentErrorLines = [line], processingError = True\<rparr>"
  by (simp add: step_def)

lemma step_continue:
  "\<not> test errorStart line \<Longrightarrow> processingError st \<Longrightarrow> continuation line \<Longrightarrow>
   step st line = st\<lparr>currentErrorLines := currentErrorLines st @ [line]\<rparr>"
  by (simp add: step_def)

lemma step_close:
  "\<not> test errorStart line \<Longrightarrow> \<not> (processingError st \<and> continuation line) \<Longrightarrow>
   step st line = \<lparr>errorCount = errorCount st, errorBlocks = saveBlock st,
                   currentErrorLines = [], processingError = False\<rparr>"
  by (auto simp: step_def)

lemma stepTrimOnly_eq: "stepTrimOnly st line = step st line"
  by (simp add: stepTrimOnly_def step_def continuation_iff)

lemma foldl_stepTrimOnly_eq: "foldl stepTrimOnly st ls = foldl step st ls"
  by (induction ls arbitrary: st) (simp_all add: stepTrimOnly_eq)

text \<open>The count of the loop is the number of lines that pass the start test.\<close>

lemma errorCount_foldl:
  "errorCount (foldl step st ls) = errorCount st + length (filter (test errorStart) ls)"
proof (induction ls arbitrary: st)
  case Nil
  show ?case by simp
next
  case (Cons l ls)
  have "errorCount (step st l) = errorCount st + (if test errorStart l then 1 else 0)"
    by (simp add: step_def)
  with Cons.IH [of "step st l"] show ?case by simp
qed

text \<open>An open block always has a line, and the count is the closed blocks plus the open one.\<close>

lemma step_invariant:
  assumes "processingError st \<longrightarrow> currentErrorLines st \<noteq> []"
    and "errorCount st = length (errorBlocks st) + (if processingError st then 1 else 0)"
  shows "(processingError (step st l) \<longrightarrow> currentErrorLines (step st l) \<noteq> [])
       \<and> errorCount (step st l)
           = length (errorBlocks (step st l)) + (if processingError (step st l) then 1 else 0)"
  using assms by (auto simp: step_def saveBlock_def)

lemma foldl_invariant:
  assumes "processingError st \<longrightarrow> currentErrorLines st \<noteq> []"
    and "errorCount st = length (errorBlocks st) + (if processingError st then 1 else 0)"
  shows "(processingError (foldl step st ls) \<longrightarrow> currentErrorLines (foldl step st ls) \<noteq> [])
       \<and> errorCount (foldl step st ls)
           = length (errorBlocks (foldl step st ls))
             + (if processingError (foldl step st ls) then 1 else 0)"
  using assms
proof (induction ls arbitrary: st)
  case Nil
  then show ?case by simp
next
  case (Cons l ls)
  from step_invariant [OF Cons.prems] Cons.IH [of "step st l"] show ?case by simp
qed

lemma errorCount_scanLines:
  "errorCount (scanLines ls) = length (filter (test errorStart) ls)"
  by (simp add: scanLines_def Let_def errorCount_foldl initial_def)

lemma length_errorBlocks_scanLines:
  "length (errorBlocks (scanLines ls)) = errorCount (scanLines ls)"
proof -
  let ?st = "foldl step initial ls"
  have "(processingError ?st \<longrightarrow> currentErrorLines ?st \<noteq> [])
      \<and> errorCount ?st = length (errorBlocks ?st) + (if processingError ?st then 1 else 0)"
    by (rule foldl_invariant) (simp_all add: initial_def)
  then show ?thesis by (auto simp: scanLines_def Let_def saveBlock_def)
qed

section \<open>The effects of a run\<close>

lemma trace_foldl_perform: "trace (foldl perform w evs) = trace w @ evs"
proof (induction evs arbitrary: w)
  case Nil
  show ?case by simp
next
  case (Cons e evs)
  have "trace (perform w e) = trace w @ [e]" by (cases e) simp_all
  with Cons.IH [of "perform w e"] show ?case by simp
qed

lemma files_foldl_perform_none:
  "fileWrites evs = [] \<Longrightarrow> files (foldl perform w evs) = files w"
proof (induction evs arbitrary: w)
  case Nil
  show ?case by simp
next
  case (Cons e evs)
  from Cons.prems have "\<not> isWriteFile e" and "fileWrites evs = []"
    by (auto simp: fileWrites_def split: if_splits)
  then have "files (perform w e) = files w" by (cases e) simp_all
  with Cons.IH [of "perform w e"] \<open>fileWrites evs = []\<close> show ?case by simp
qed

lemma files_foldl_perform_one:
  assumes "fileWrites pre = []" and "fileWrites post = []"
  shows "files (foldl perform w (pre @ WriteFile p c # post)) = (files w)(p \<mapsto> c)"
  using assms by (simp add: files_foldl_perform_none)

lemma fileWrites_forEachIndexed_showBlock: "fileWrites (forEachIndexed showBlock bs) = []"
  by (auto simp: fileWrites_def forEachIndexed_def showBlock_def separator_def filter_empty_conv)

lemma fileWrites_forEachIndexed_summaryBlock: "fileWrites (forEachIndexed summaryBlock bs) = []"
  by (auto simp: fileWrites_def forEachIndexed_def summaryBlock_def filter_empty_conv)


section \<open>The loop seen from the front\<close>

lemma saveBlock_foldl:
  "saveBlock (foldl step st ls)
     = errorBlocks st @ blocksFrom (currentErrorLines st) (processingError st) ls"
proof (induction ls arbitrary: st)
  case Nil
  show ?case by (simp add: saveBlock_def)
next
  case (Cons l ls)
  show ?case
  proof (cases "test errorStart l")
    case True
    then show ?thesis
      using Cons.IH [of "step st l"] by (simp add: step_trigger saveBlock_def)
  next
    case False
    show ?thesis
    proof (cases "processingError st \<and> continuation l")
      case True
      with False show ?thesis
        using Cons.IH [of "step st l"] by (simp add: step_continue)
    next
      case False
      with \<open>\<not> test errorStart l\<close> have "step st l = \<lparr>errorCount = errorCount st,
          errorBlocks = saveBlock st, currentErrorLines = [], processingError = False\<rparr>"
        by (rule step_close)
      with False \<open>\<not> test errorStart l\<close> show ?thesis
        using Cons.IH [of "step st l"] by (auto simp: saveBlock_def)
    qed
  qed
qed

lemma errorBlocks_scanLines: "errorBlocks (scanLines ls) = blocksFrom [] False ls"
  by (simp add: scanLines_def Let_def saveBlock_foldl initial_def)

lemma blocksFrom_first_lines:
  "open \<longrightarrow> cur \<noteq> [] \<Longrightarrow>
   map (\<lambda>b. take 1 (lines b)) (blocksFrom cur open ls)
     = (if open then [take 1 cur] else []) @ map (\<lambda>t. [t]) (filter (test errorStart) ls)"
proof (induction ls arbitrary: cur "open")
  case Nil
  then show ?case by (simp add: mkBlock_def)
next
  case (Cons l ls)
  show ?case
  proof (cases "test errorStart l")
    case True
    with Cons.prems Cons.IH [of True "[l]"] show ?thesis by (simp add: mkBlock_def)
  next
    case False
    show ?thesis
    proof (cases "open \<and> continuation l")
      case True
      with False Cons.prems Cons.IH [of "open" "cur @ [l]"] show ?thesis
        by (cases cur) simp_all
    next
      case False
      with \<open>\<not> test errorStart l\<close> Cons.prems Cons.IH [of False "[]"] show ?thesis
        by (auto simp: mkBlock_def)
    qed
  qed
qed

lemma first_lines_scanLines:
  "map (\<lambda>b. take 1 (lines b)) (errorBlocks (scanLines ls))
     = map (\<lambda>t. [t]) (filter (test errorStart) ls)"
  using blocksFrom_first_lines [of False "[]" ls] by (simp add: errorBlocks_scanLines)

section \<open>What a run leaves behind\<close>

lemma fileWrites_summary:
  "fileWrites (summary st)
     = (if errorCount st > 0 then [WriteFile (js ''have_error'') []] else [])"
  using fileWrites_forEachIndexed_summaryBlock [of "errorBlocks st"]
  by (simp add: summary_def fileWrites_def)

lemma fileWrites_report:
  "fileWrites (report content)
     = (if errorCount (scanLines (split content)) > 0 then [WriteFile (js ''have_error'') []] else [])"
  using fileWrites_forEachIndexed_showBlock [of "errorBlocks (scanLines (split content))"]
    fileWrites_summary [of "scanLines (split content)"]
  by (simp add: report_def Let_def fileWrites_def separator_def)

lemma analyzeErrors_missing:
  "files w logFile = None \<Longrightarrow>
   analyzeErrors w logFile
     = (w\<lparr>trace := trace w @ [Error (js ''Log file '' @ [39] @ logFile @ [39] @ js '' does not exist.'')]\<rparr>, 0)"
  by (simp add: analyzeErrors_def)

lemma analyzeErrors_existing:
  "files w logFile = Some content \<Longrightarrow>
   analyzeErrors w logFile
     = (foldl perform w (Info (js ''Analyzing log file: '' @ logFile) # report content),
        errorCount (scanLines (split content)))"
  by (simp add: analyzeErrors_def)

lemma files_after_report:
  "files (foldl perform w (Info x # report content))
     = (if errorCount (scanLines (split content)) > 0
        then (files w)(js ''have_error'' \<mapsto> []) else files w)"
proof (cases "errorCount (scanLines (split content)) > 0")
  case False
  then have "fileWrites (report content) = []"
    by (simp add: fileWrites_report)
  then have "fileWrites (Info x # report content) = []"
    by (simp add: fileWrites_def)
  with False show ?thesis by (simp only: files_foldl_perform_none if_False)
next
  case True
  let ?st = "scanLines (split content)"
  let ?pre = "Info x # [separator] @ forEachIndexed showBlock (errorBlocks ?st)
      @ [Info (js ''Total found '' @ toString (errorCount ?st) @ js '' error(s).''),
         Warning (js ''Please carefully review the error messages and suggestions above.'')]"
  let ?post = "[Info [], Info (repeat (js ''='') 56), Info (js ''                    Error Summary''),
         Info (repeat (js ''='') 56)]
      @ forEachIndexed summaryBlock (errorBlocks ?st)
      @ [Info ([10] @ repeat (js ''='') 56),
         Info (js ''Total: '' @ toString (errorCount ?st) @ js '' error(s)''),
         Info (repeat (js ''='') 56)] @ [separator]"
  have split: "Info x # report content = ?pre @ WriteFile (js ''have_error'') [] # ?post"
    using True by (simp add: report_def Let_def summary_def)
  have pre: "fileWrites ?pre = []"
    using fileWrites_forEachIndexed_showBlock [of "errorBlocks ?st"]
    by (simp add: fileWrites_def separator_def)
  have post: "fileWrites ?post = []"
    using fileWrites_forEachIndexed_summaryBlock [of "errorBlocks ?st"]
    by (simp add: fileWrites_def separator_def)
  show ?thesis
    using True files_foldl_perform_one [OF pre post, of w "js ''have_error''" "[]"]
    by (simp only: split if_True)
qed



lemma files_analyzeErrors:
  "files w logFile = Some content \<Longrightarrow>
   files (fst (analyzeErrors w logFile))
     = (if errorCount (scanLines (split content)) > 0
        then (files w)(js ''have_error'' \<mapsto> []) else files w)"
  by (simp only: analyzeErrors_existing fst_conv files_after_report)

lemma trace_analyzeErrors:
  "files w logFile = Some content \<Longrightarrow>
   trace (fst (analyzeErrors w logFile))
     = trace w @ Info (js ''Analyzing log file: '' @ logFile) # report content"
  by (simp only: analyzeErrors_existing fst_conv trace_foldl_perform)

lemma result_analyzeErrors:
  "files w logFile = Some content \<Longrightarrow>
   snd (analyzeErrors w logFile) = errorCount (scanLines (split content))"
  by (simp only: analyzeErrors_existing snd_conv)

lemma fileWrites_analyzeErrors:
  "files w logFile = Some content \<Longrightarrow>
   fileWrites (drop (length (trace w)) (trace (fst (analyzeErrors w logFile))))
     = fileWrites (report content)"
  by (simp add: trace_analyzeErrors fileWrites_def)



section \<open>The classifier on a table\<close>

lemma classify_first_match:
  "\<not> list_ex (\<lambda>q. test (pattern q) txt) pre \<Longrightarrow> test (pattern p) txt \<Longrightarrow>
   classify (pre @ p # post) txt = \<lparr>type = type p, suggestion = js ''Suggestion: '' @ suggestion p\<rparr>"
  by (induction pre) simp_all

lemma classify_no_match:
  "\<not> list_ex (\<lambda>q. test (pattern q) txt) tbl \<Longrightarrow>
   classify tbl txt
     = \<lparr>type = js ''Uncommon Error'',
        suggestion = js ''Please follow the compilation output error results and try to resolve using search engines''\<rparr>"
  by (induction tbl) simp_all

text \<open>Some pattern of the table matches: then there is a first one.\<close>

lemma first_match_exists:
  "i < length tbl \<Longrightarrow> test (pattern (tbl ! i)) txt \<Longrightarrow>
   \<exists>k\<le>i. test (pattern (tbl ! k)) txt \<and> \<not> list_ex (\<lambda>q. test (pattern q) txt) (take k tbl)"
proof (induction i rule: less_induct)
  case (less i)
  show ?case
  proof (cases "list_ex (\<lambda>q. test (pattern q) txt) (take i tbl)")
    case False
    with less.prems show ?thesis by blast
  next
    case True
    then obtain m where m: "m < i" "test (pattern (tbl ! m)) txt"
      using less.prems(1) by (auto simp: list_ex_iff in_set_conv_nth)
    with less.IH [of m] less.prems(1) obtain k where
      "k \<le> m" "test (pattern (tbl ! k)) txt" "\<not> list_ex (\<lambda>q. test (pattern q) txt) (take k tbl)"
      by auto
    with m(1) show ?thesis by (intro exI [of _ k]) simp
  qed
qed

lemma classify_at_first_match:
  assumes "k < length tbl" and "test (pattern (tbl ! k)) txt"
    and "\<not> list_ex (\<lambda>q. test (pattern q) txt) (take k tbl)"
  shows "classify tbl txt
     = \<lparr>type = type (tbl ! k), suggestion = js ''Suggestion: '' @ suggestion (tbl ! k)\<rparr>"
proof -
  have "tbl = take k tbl @ tbl ! k # drop (Suc k) tbl"
    using assms(1) by (simp add: id_take_nth_drop)
  then show ?thesis
    using classify_first_match [OF assms(3) assms(2), of "drop (Suc k) tbl"] by simp
qed


section \<open>What the start test needs\<close>

lemma matchHere_One:
  "matchHere ic (One a # ps) s \<longleftrightarrow> (\<exists>c cs. s = c # cs \<and> atomMatches ic a c \<and> matchHere ic ps cs)"
  by (cases s) simp_all

lemma test_suffix: "test r s \<longleftrightarrow> (\<exists>pre post. s = pre @ post \<and> matchAny r post)"
proof (induction s)
  case Nil
  show ?case by simp
next
  case (Cons c cs)
  show ?case
  proof
    assume "test r (c # cs)"
    then consider "matchAny r (c # cs)" | "test r cs" by auto
    then show "\<exists>pre post. c # cs = pre @ post \<and> matchAny r post"
    proof cases
      case 1
      then have "c # cs = [] @ c # cs \<and> matchAny r (c # cs)" by simp
      then show ?thesis by blast
    next
      case 2
      then obtain pre post where "cs = pre @ post" "matchAny r post" using Cons.IH by blast
      then have "c # cs = (c # pre) @ post \<and> matchAny r post" by simp
      then show ?thesis by blast
    qed
  next
    assume "\<exists>pre post. c # cs = pre @ post \<and> matchAny r post"
    then obtain pre post where e: "c # cs = pre @ post" and m: "matchAny r post" by blast
    show "test r (c # cs)"
    proof (cases pre)
      case Nil
      with e have "post = c # cs" by simp
      with m show ?thesis by simp
    next
      case (Cons a pre')
      with e have "cs = pre' @ post" by simp
      with m Cons.IH show ?thesis by auto
    qed
  qed
qed

lemma errorStart_nonblank:
  assumes "matchAny errorStart post"
  shows "\<exists>c\<in>set post. \<not> isWhiteSpace c"
proof -
  have e: "canonicalize c = canonicalize 101 \<Longrightarrow> \<not> isWhiteSpace c" for c
    by (auto simp: canonicalize_def isWhiteSpace_def isLineTerminator_def split: if_splits)
  have f: "canonicalize c = canonicalize 102 \<Longrightarrow> \<not> isWhiteSpace c" for c
    by (auto simp: canonicalize_def isWhiteSpace_def isLineTerminator_def split: if_splits)
  have u: "canonicalize c = canonicalize 117 \<Longrightarrow> \<not> isWhiteSpace c" for c
    by (auto simp: canonicalize_def isWhiteSpace_def isLineTerminator_def split: if_splits)
  from assms consider
      (a) w c cs where "post = w # c # cs" "canonicalize c = canonicalize 101"
    | (b) w c cs where "post = w # c # cs" "canonicalize c = canonicalize 102"
    | (c) c cs where "post = c # cs" "canonicalize c = canonicalize 117"
    by (auto simp: matchAny_def errorStart_def regexI_def lit_def matchHere_One)
  then show ?thesis
  proof cases
    case a
    with e show ?thesis by auto
  next
    case b
    with f show ?thesis by auto
  next
    case c
    with u show ?thesis by auto
  qed
qed

lemma trigger_nonblank: "test errorStart line \<Longrightarrow> trim line \<noteq> []"
proof -
  assume "test errorStart line"
  then obtain pre post where "line = pre @ post" "matchAny errorStart post"
    by (auto simp: test_suffix)
  with errorStart_nonblank [of post] show ?thesis
    by (auto simp: trim_nonempty_iff)
qed

section \<open>Where an error block ends\<close>

lemma blocksFrom_trigger_after:
  "test errorStart t \<Longrightarrow>
   blocksFrom cur open (pre @ t # rest) = blocksFrom cur open pre @ blocksFrom [t] True rest"
  by (induction pre arbitrary: cur "open") simp_all

lemma blocksFrom_open:
  "cur \<noteq> [] \<Longrightarrow>
   blocksFrom cur True ls
     = mkBlock (cur @ takeWhile (\<lambda>l. \<not> test errorStart l \<and> trim l \<noteq> []) ls)
       # blocksFrom [] False (dropWhile (\<lambda>l. \<not> test errorStart l \<and> trim l \<noteq> []) ls)"
proof (induction ls arbitrary: cur)
  case Nil
  then show ?case by simp
next
  case (Cons l ls)
  show ?case
  proof (cases "test errorStart l")
    case True
    with Cons.prems show ?thesis by simp
  next
    case False
    show ?thesis
    proof (cases "trim l \<noteq> []")
      case True
      with False Cons.IH [of "cur @ [l]"] show ?thesis
        by (simp add: continuation_iff)
    next
      case False
      with \<open>\<not> test errorStart l\<close> Cons.prems show ?thesis
        by (simp add: continuation_iff)
    qed
  qed
qed

lemma blocksFrom_skip_blank: "trim b = [] \<Longrightarrow> blocksFrom [] False (b # post) = blocksFrom [] False post"
  using trigger_nonblank [of b] by auto


section \<open>The start test in words\<close>

lemma matchHere_lit:
  "matchHere True (lit p) s \<longleftrightarrow> startsWith (map canonicalize s) (map canonicalize (js p))"
proof (induction p arbitrary: s)
  case Nil
  show ?case by (simp add: lit_def js_def)
next
  case (Cons c p)
  have "lit (c # p) = One (Chr (of_char c)) # lit p" by (simp add: lit_def)
  moreover have "js (c # p) = of_char c # js p" by (simp add: js_def)
  ultimately show ?case using Cons.IH by (cases s) simp_all
qed

lemma matchHere_space_lit:
  "matchHere True ([One Space] @ lit p) s
     \<longleftrightarrow> (case s of [] \<Rightarrow> False
          | c # cs \<Rightarrow> isWhiteSpace c \<and> startsWith (map canonicalize cs) (map canonicalize (js p)))"
  by (cases s) (simp_all add: matchHere_lit)

lemma matchAny_errorStart:
  "matchAny errorStart s
     \<longleftrightarrow> matchHere True ([One Space] @ lit ''error:'') s
        \<or> matchHere True ([One Space] @ lit ''fatal error:'') s
        \<or> matchHere True (lit ''undefined reference to'') s"
  by (simp add: matchAny_def errorStart_def regexI_def)

lemma test_errorStart_iff:
  "test errorStart line
     \<longleftrightarrow> spaceThenCI (js ''error:'') line \<or> spaceThenCI (js ''fatal error:'') line
        \<or> occursCI (js ''undefined reference to'') line"
proof (induction line)
  case Nil
  show ?case
    by (simp only: test.simps matchAny_errorStart matchHere_space_lit matchHere_lit occursCI_def
        spaceThenCI.simps includes_str.simps list.map list.case simp_thms)
next
  case (Cons c cs)
  have "test errorStart (c # cs) \<longleftrightarrow> matchAny errorStart (c # cs) \<or> test errorStart cs"
    by simp
  also have "\<dots> \<longleftrightarrow>
      (isWhiteSpace c \<and> startsWith (map canonicalize cs) (map canonicalize (js ''error:''))
       \<or> isWhiteSpace c \<and> startsWith (map canonicalize cs) (map canonicalize (js ''fatal error:''))
       \<or> startsWith (map canonicalize (c # cs)) (map canonicalize (js ''undefined reference to'')))
      \<or> (spaceThenCI (js ''error:'') cs \<or> spaceThenCI (js ''fatal error:'') cs
         \<or> occursCI (js ''undefined reference to'') cs)"
    by (simp only: Cons.IH matchAny_errorStart matchHere_space_lit matchHere_lit list.case)
  also have "\<dots> \<longleftrightarrow> spaceThenCI (js ''error:'') (c # cs) \<or> spaceThenCI (js ''fatal error:'') (c # cs)
        \<or> occursCI (js ''undefined reference to'') (c # cs)"
    by (auto simp: occursCI_def)
  finally show ?case .
qed

lemma occursCI_space:
  "occursCI (32 # needle) line \<Longrightarrow> spaceThenCI needle line"
proof (induction line)
  case Nil
  then show ?case by (simp add: occursCI_def)
next
  case (Cons c cs)
  have sp: "canonicalize c = canonicalize 32 \<Longrightarrow> isWhiteSpace c"
    by (auto simp: canonicalize_def isWhiteSpace_def split: if_splits)
  from Cons.prems consider
      "canonicalize c = canonicalize 32 \<and> startsWith (map canonicalize cs) (map canonicalize needle)"
    | "occursCI (32 # needle) cs"
    by (auto simp: occursCI_def)
  then show ?case
  proof cases
    case 1
    with sp show ?thesis by simp
  next
    case 2
    with Cons.IH show ?thesis by simp
  qed
qed

lemma specTrigger_test: "specTrigger line \<Longrightarrow> test errorStart line"
proof -
  assume "specTrigger line"
  then consider "occursCI (32 # js ''error:'') line" | "occursCI (32 # js ''fatal error:'') line"
    | "occursCI (js ''undefined reference to'') line"
    by (auto simp: specTrigger_def js_def)
  then show ?thesis
    by cases (auto simp: test_errorStart_iff dest: occursCI_space)
qed


section \<open>Properties of the engine\<close>

text \<open>
  C1. For every existing log file, the number of error blocks in the report equals the
  number of lines that pass the start test, the blocks start with exactly these lines, in
  order, and the value returned by the engine is the same number.
\<close>

theorem incidents_match_triggers:
  assumes "files w logFile = Some content"
  shows "length (errorBlocks (scanLines (split content)))
           = length (filter (test errorStart) (split content))
       \<and> map (\<lambda>b. take 1 (lines b)) (errorBlocks (scanLines (split content)))
           = map (\<lambda>t. [t]) (filter (test errorStart) (split content))
       \<and> snd (analyzeErrors w logFile) = length (filter (test errorStart) (split content))"
proof -
  have a: "length (errorBlocks (scanLines (split content)))
             = length (filter (test errorStart) (split content))"
    by (simp add: length_errorBlocks_scanLines errorCount_scanLines)
  have b: "map (\<lambda>b. take 1 (lines b)) (errorBlocks (scanLines (split content)))
             = map (\<lambda>t. [t]) (filter (test errorStart) (split content))"
    by (rule first_lines_scanLines)
  have c: "snd (analyzeErrors w logFile) = length (filter (test errorStart) (split content))"
    using assms by (simp add: analyzeErrors_existing errorCount_scanLines)
  from a b c show ?thesis by (intro conjI)
qed

theorem incidents_match_triggers_witness:
  "files (onlyLog (js ''build.log'') scenarioLog) (js ''build.log'') = Some scenarioLog
   \<and> length (errorBlocks (scanLines (split scenarioLog))) = 2
   \<and> length (filter (test errorStart) (split scenarioLog)) = 2
   \<and> snd (analyzeErrors (onlyLog (js ''build.log'') scenarioLog) (js ''build.log'')) = 2"
proof -
  have h: "files (onlyLog (js ''build.log'') scenarioLog) (js ''build.log'') = Some scenarioLog"
    by (simp add: onlyLog_def)
  have n: "length (filter (test errorStart) (split scenarioLog)) = 2"
    by code_simp
  show ?thesis
    using h n incidents_match_triggers [OF h] by simp
qed

text \<open>
  C2. The four-line log of the scenario: two error blocks, the first with lines 1 and 2 and
  the type of the link error, the second with line 4 alone and the type of the compiler
  option; the engine returns 2 and writes the marker.
\<close>

theorem end_to_end_scenario:
  assumes "files w logFile = Some scenarioLog"
  shows "split scenarioLog
           = [js ''foo.c: error: undefined reference to 'bar'' @ [39], js ''note: declared here'', [],
              js ''baz.c: error: unrecognized command line option '-fxyz'' @ [39]]
       \<and> map lines (errorBlocks (scanLines (split scenarioLog)))
           = [[js ''foo.c: error: undefined reference to 'bar'' @ [39], js ''note: declared here''],
              [js ''baz.c: error: unrecognized command line option '-fxyz'' @ [39]]]
       \<and> map type (errorBlocks (scanLines (split scenarioLog)))
           = [js ''Link Error: Missing Library or Function'', js ''Compiler Option Not Supported'']
       \<and> snd (analyzeErrors w logFile) = 2
       \<and> fileWrites (drop (length (trace w)) (trace (fst (analyzeErrors w logFile))))
           = [WriteFile (js ''have_error'') []]
       \<and> files (fst (analyzeErrors w logFile)) (js ''have_error'') = Some []"
proof -
  have s: "split scenarioLog
      = [js ''foo.c: error: undefined reference to 'bar'' @ [39], js ''note: declared here'', [],
         js ''baz.c: error: unrecognized command line option '-fxyz'' @ [39]]"
    by code_simp
  have l: "map lines (errorBlocks (scanLines (split scenarioLog)))
      = [[js ''foo.c: error: undefined reference to 'bar'' @ [39], js ''note: declared here''],
         [js ''baz.c: error: unrecognized command line option '-fxyz'' @ [39]]]"
    by code_simp
  have t: "map type (errorBlocks (scanLines (split scenarioLog)))
      = [js ''Link Error: Missing Library or Function'', js ''Compiler Option Not Supported'']"
    by code_simp
  have n: "errorCount (scanLines (split scenarioLog)) = 2"
    by code_simp
  have r: "snd (analyzeErrors w logFile) = 2"
    by (simp only: result_analyzeErrors [OF assms] n)
  have f: "fileWrites (drop (length (trace w)) (trace (fst (analyzeErrors w logFile))))
      = [WriteFile (js ''have_error'') []]"
    by (simp add: fileWrites_analyzeErrors [OF assms] fileWrites_report n)
  have m: "files (fst (analyzeErrors w logFile)) (js ''have_error'') = Some []"
    by (simp add: files_analyzeErrors [OF assms] n)
  from s l t r f m show ?thesis by (intro conjI)
qed

theorem end_to_end_scenario_witness:
  "files (onlyLog (js ''out/build.log'') scenarioLog) (js ''out/build.log'') = Some scenarioLog
   \<and> snd (analyzeErrors (onlyLog (js ''out/build.log'') scenarioLog) (js ''out/build.log'')) = 2
   \<and> files (fst (analyzeErrors (onlyLog (js ''out/build.log'') scenarioLog) (js ''out/build.log'')))
       (js ''have_error'') = Some []"
proof -
  have h: "files (onlyLog (js ''out/build.log'') scenarioLog) (js ''out/build.log'') = Some scenarioLog"
    by (simp add: onlyLog_def)
  show ?thesis
    using h end_to_end_scenario [OF h] by simp
qed

text \<open>
  C3. A run writes the empty marker file \<open>have_error\<close> once when the count it returns is at
  least 1 and writes nothing otherwise; the file system changes only by this file. A log
  with no line that passes the start test gives the count 0 and no write.
\<close>

theorem marker_iff_count:
  "fileWrites (drop (length (trace w)) (trace (fst (analyzeErrors w logFile))))
     = (if snd (analyzeErrors w logFile) \<ge> 1 then [WriteFile (js ''have_error'') []] else [])
   \<and> files (fst (analyzeErrors w logFile))
     = (if snd (analyzeErrors w logFile) \<ge> 1 then (files w)(js ''have_error'' \<mapsto> []) else files w)
   \<and> (files w logFile = Some content \<and> filter (test errorStart) (split content) = []
        \<longrightarrow> snd (analyzeErrors w logFile) = 0
            \<and> fileWrites (drop (length (trace w)) (trace (fst (analyzeErrors w logFile)))) = []
            \<and> files (fst (analyzeErrors w logFile)) = files w)"
proof -
  let ?r = "analyzeErrors w logFile"
  have main: "fileWrites (drop (length (trace w)) (trace (fst ?r)))
        = (if snd ?r \<ge> 1 then [WriteFile (js ''have_error'') []] else [])
      \<and> files (fst ?r) = (if snd ?r \<ge> 1 then (files w)(js ''have_error'' \<mapsto> []) else files w)"
  proof (cases "files w logFile")
    case None
    then show ?thesis by (simp add: analyzeErrors_missing fileWrites_def)
  next
    case (Some c)
    show ?thesis
      by (simp add: fileWrites_analyzeErrors [OF Some] files_analyzeErrors [OF Some]
          result_analyzeErrors [OF Some] fileWrites_report Suc_le_eq)
  qed
  have none: "snd ?r = 0"
    if "files w logFile = Some content" and "filter (test errorStart) (split content) = []"
    using that by (simp add: result_analyzeErrors errorCount_scanLines)
  from main none show ?thesis by auto
qed

theorem marker_iff_count_witness:
  "files (onlyLog (js ''build.log'') (js ''  CC      foo.o'')) (js ''build.log'')
     = Some (js ''  CC      foo.o'')
   \<and> filter (test errorStart) (split (js ''  CC      foo.o'')) = []
   \<and> snd (analyzeErrors (onlyLog (js ''build.log'') (js ''  CC      foo.o'')) (js ''build.log'')) = 0
   \<and> files (fst (analyzeErrors (onlyLog (js ''build.log'') (js ''  CC      foo.o'')) (js ''build.log'')))
       (js ''have_error'') = None"
proof -
  let ?w = "onlyLog (js ''build.log'') (js ''  CC      foo.o'')"
  have h: "files ?w (js ''build.log'') = Some (js ''  CC      foo.o'')"
    by (simp add: onlyLog_def)
  have t: "filter (test errorStart) (split (js ''  CC      foo.o'')) = []"
    by code_simp
  have m: "files ?w (js ''have_error'') = None"
    by (simp add: onlyLog_def js_def)
  show ?thesis
    using h t m marker_iff_count [of ?w "js ''build.log''" "js ''  CC      foo.o''"] by simp
qed

text \<open>
  C4, as stated, fails on the table of the code. The text of an error block with an unused
  variable under \<open>-Werror\<close> and the line of \<open>make\<close> that follows is matched by the patterns
  at positions 14 and 20 of the table, counted from 0, and the type returned is neither the
  one declared earlier of these two nor the later one: the pattern at position 5 matches as
  well and comes first.
\<close>

theorem first_match_wins_counterexample:
  "test (pattern (ERROR_PATTERNS ! 14))
     (join [js ''foo.c:3:7: error: unused variable 'x' [-Werror,-Wunused-variable]'',
            js ''make[2]: *** [foo.o] Error 1''] [10])
   \<and> test (pattern (ERROR_PATTERNS ! 20))
     (join [js ''foo.c:3:7: error: unused variable 'x' [-Werror,-Wunused-variable]'',
            js ''make[2]: *** [foo.o] Error 1''] [10])
   \<and> type (ERROR_PATTERNS ! 14) = js ''Warning Treated as Error''
   \<and> type (analyzeErrorBlock
        [js ''foo.c:3:7: error: unused variable 'x' [-Werror,-Wunused-variable]'',
         js ''make[2]: *** [foo.o] Error 1'']) = js ''Makefile Build Error''
   \<and> type (analyzeErrorBlock
        [js ''foo.c:3:7: error: unused variable 'x' [-Werror,-Wunused-variable]'',
         js ''make[2]: *** [foo.o] Error 1'']) \<noteq> type (ERROR_PATTERNS ! 14)"
  by code_simp

text \<open>
  C4, amended. The classifier goes through the table in the order of declaration and
  returns the type and the suggestion of the first pattern that matches the text; what
  follows it in the table has no part in the result. So when two patterns of a table match
  a text, the result is that of the first matching pattern of the table, which stands at
  or before the earlier of the two; it is the earlier one itself when nothing before it
  matches, as in a table of these two patterns alone.
\<close>

theorem first_match_wins:
  "(\<not> list_ex (\<lambda>q. test (pattern q) txt) pre \<and> test (pattern p) txt
      \<longrightarrow> classify (pre @ p # post) txt
            = \<lparr>type = type p, suggestion = js ''Suggestion: '' @ suggestion p\<rparr>)
   \<and> (ERROR_PATTERNS = pre @ p # post
        \<and> \<not> list_ex (\<lambda>q. test (pattern q) (join ls [10])) pre \<and> test (pattern p) (join ls [10])
      \<longrightarrow> analyzeErrorBlock ls
            = \<lparr>type = type p, suggestion = js ''Suggestion: '' @ suggestion p\<rparr>)
   \<and> (test (pattern p) txt \<and> test (pattern q) txt \<longrightarrow> type (classify [p, q] txt) = type p)
   \<and> (i < j \<and> j < length tbl \<and> test (pattern (tbl ! i)) txt \<and> test (pattern (tbl ! j)) txt
      \<longrightarrow> (\<exists>k\<le>i. test (pattern (tbl ! k)) txt
                  \<and> \<not> list_ex (\<lambda>q. test (pattern q) txt) (take k tbl)
                  \<and> classify tbl txt
                      = \<lparr>type = type (tbl ! k),
                         suggestion = js ''Suggestion: '' @ suggestion (tbl ! k)\<rparr>)
          \<and> (\<not> list_ex (\<lambda>q. test (pattern q) txt) (take i tbl)
                \<longrightarrow> type (classify tbl txt) = type (tbl ! i)))"
proof (intro conjI impI)
  assume "\<not> list_ex (\<lambda>q. test (pattern q) txt) pre \<and> test (pattern p) txt"
  then show "classify (pre @ p # post) txt
      = \<lparr>type = type p, suggestion = js ''Suggestion: '' @ suggestion p\<rparr>"
    by (simp add: classify_first_match)
next
  assume "ERROR_PATTERNS = pre @ p # post
      \<and> \<not> list_ex (\<lambda>q. test (pattern q) (join ls [10])) pre \<and> test (pattern p) (join ls [10])"
  then have e: "ERROR_PATTERNS = pre @ p # post"
    and n: "\<not> list_ex (\<lambda>q. test (pattern q) (join ls [10])) pre"
    and m: "test (pattern p) (join ls [10])" by blast+
  show "analyzeErrorBlock ls
      = \<lparr>type = type p, suggestion = js ''Suggestion: '' @ suggestion p\<rparr>"
    unfolding analyzeErrorBlock_def e by (rule classify_first_match [OF n m])
next
  assume "test (pattern p) txt \<and> test (pattern q) txt"
  then show "type (classify [p, q] txt) = type p" by simp
next
  assume a: "i < j \<and> j < length tbl \<and> test (pattern (tbl ! i)) txt \<and> test (pattern (tbl ! j)) txt"
  then have i: "i < length tbl" "test (pattern (tbl ! i)) txt" by simp_all
  from first_match_exists [OF i] obtain k where k: "k \<le> i" "test (pattern (tbl ! k)) txt"
    "\<not> list_ex (\<lambda>q. test (pattern q) txt) (take k tbl)" by blast
  with i(1) have "k < length tbl" by simp
  from classify_at_first_match [OF this k(2) k(3)] k
  show "\<exists>k\<le>i. test (pattern (tbl ! k)) txt
      \<and> \<not> list_ex (\<lambda>q. test (pattern q) txt) (take k tbl)
      \<and> classify tbl txt
          = \<lparr>type = type (tbl ! k), suggestion = js ''Suggestion: '' @ suggestion (tbl ! k)\<rparr>"
    by blast
next
  assume a: "i < j \<and> j < length tbl \<and> test (pattern (tbl ! i)) txt \<and> test (pattern (tbl ! j)) txt"
    and n: "\<not> list_ex (\<lambda>q. test (pattern q) txt) (take i tbl)"
  from a have i: "i < length tbl" "test (pattern (tbl ! i)) txt" by simp_all
  from classify_at_first_match [OF i n] show "type (classify tbl txt) = type (tbl ! i)" by simp
qed

text \<open>
  The error block of the counterexample: the first match is at position 5, after five
  patterns that do not match, and before the matches at positions 14 and 20.
\<close>

theorem first_match_wins_witness:
  "ERROR_PATTERNS = take 5 ERROR_PATTERNS @ ERROR_PATTERNS ! 5 # drop 6 ERROR_PATTERNS
   \<and> take 5 ERROR_PATTERNS \<noteq> []
   \<and> \<not> list_ex (\<lambda>q. test (pattern q)
          (join [js ''foo.c:3:7: error: unused variable 'x' [-Werror,-Wunused-variable]'',
                 js ''make[2]: *** [foo.o] Error 1''] [10])) (take 5 ERROR_PATTERNS)
   \<and> test (pattern (ERROR_PATTERNS ! 5))
        (join [js ''foo.c:3:7: error: unused variable 'x' [-Werror,-Wunused-variable]'',
               js ''make[2]: *** [foo.o] Error 1''] [10])
   \<and> test (pattern (ERROR_PATTERNS ! 14))
        (join [js ''foo.c:3:7: error: unused variable 'x' [-Werror,-Wunused-variable]'',
               js ''make[2]: *** [foo.o] Error 1''] [10])
   \<and> test (pattern (ERROR_PATTERNS ! 20))
        (join [js ''foo.c:3:7: error: unused variable 'x' [-Werror,-Wunused-variable]'',
               js ''make[2]: *** [foo.o] Error 1''] [10])
   \<and> (5::nat) < 14 \<and> (14::nat) < 20 \<and> 20 < length ERROR_PATTERNS
   \<and> type (analyzeErrorBlock
        [js ''foo.c:3:7: error: unused variable 'x' [-Werror,-Wunused-variable]'',
         js ''make[2]: *** [foo.o] Error 1'']) = js ''Makefile Build Error''
   \<and> type (classify [ERROR_PATTERNS ! 14, ERROR_PATTERNS ! 20]
        (join [js ''foo.c:3:7: error: unused variable 'x' [-Werror,-Wunused-variable]'',
               js ''make[2]: *** [foo.o] Error 1''] [10])) = js ''Warning Treated as Error''
   \<and> type (classify ERROR_PATTERNS
        (join [js ''foo.c:3:7: error: unused variable 'x' [-Werror,-Wunused-variable]'',
               js ''make[2]: *** [foo.o] Error 1''] [10])) = js ''Makefile Build Error''"
proof -
  let ?ls = "[js ''foo.c:3:7: error: unused variable 'x' [-Werror,-Wunused-variable]'',
              js ''make[2]: *** [foo.o] Error 1'']"
  let ?t = "join ?ls [10]"
  have e: "ERROR_PATTERNS = take 5 ERROR_PATTERNS @ ERROR_PATTERNS ! 5 # drop 6 ERROR_PATTERNS"
    by code_simp
  have ne: "take 5 ERROR_PATTERNS \<noteq> []" by code_simp
  have n: "\<not> list_ex (\<lambda>q. test (pattern q) ?t) (take 5 ERROR_PATTERNS)" by code_simp
  have h5: "test (pattern (ERROR_PATTERNS ! 5)) ?t" by code_simp
  have h14: "test (pattern (ERROR_PATTERNS ! 14)) ?t" by code_simp
  have h20: "test (pattern (ERROR_PATTERNS ! 20)) ?t" by code_simp
  have l: "20 < length ERROR_PATTERNS" by code_simp
  have t5: "type (ERROR_PATTERNS ! 5) = js ''Makefile Build Error''" by code_simp
  have t14: "type (ERROR_PATTERNS ! 14) = js ''Warning Treated as Error''" by code_simp
  note w1 = first_match_wins [of ?t "take 5 ERROR_PATTERNS" "ERROR_PATTERNS ! 5"
      "drop 6 ERROR_PATTERNS" ?ls "ERROR_PATTERNS ! 14" 5 14 ERROR_PATTERNS]
  note w2 = first_match_wins [of ?t "take 5 ERROR_PATTERNS" "ERROR_PATTERNS ! 14"
      "drop 6 ERROR_PATTERNS" ?ls "ERROR_PATTERNS ! 20" 14 20 ERROR_PATTERNS]
  have a: "type (analyzeErrorBlock ?ls) = js ''Makefile Build Error''"
    using w1 e n h5 t5 by simp
  have "type (classify [ERROR_PATTERNS ! 14, ERROR_PATTERNS ! 20] ?t) = type (ERROR_PATTERNS ! 14)"
    using w2 h14 h20 by blast
  then have b: "type (classify [ERROR_PATTERNS ! 14, ERROR_PATTERNS ! 20] ?t)
      = js ''Warning Treated as Error''"
    by (simp only: t14)
  have c: "type (classify ERROR_PATTERNS ?t) = js ''Makefile Build Error''"
    using w1 n h5 h14 l t5 by simp
  from e ne n h5 h14 h20 l a b c show ?thesis by simp
qed

text \<open>
  C5. When no pattern of the table matches the text of an error block, the block gets the
  type \<open>Uncommon Error\<close> and the fixed suggestion, which names search engines.
\<close>

theorem no_match_default:
  "(\<not> list_ex (\<lambda>q. test (pattern q) txt) tbl
      \<longrightarrow> classify tbl txt
            = \<lparr>type = js ''Uncommon Error'',
               suggestion = js ''Please follow the compilation output error results and try to resolve using search engines''\<rparr>)
   \<and> (\<not> list_ex (\<lambda>q. test (pattern q) (join ls [10])) ERROR_PATTERNS
      \<longrightarrow> analyzeErrorBlock ls
            = \<lparr>type = js ''Uncommon Error'',
               suggestion = js ''Please follow the compilation output error results and try to resolve using search engines''\<rparr>
          \<and> includes_str (suggestion (analyzeErrorBlock ls)) (js ''search engines''))"
proof -
  have s: "includes_str
      (js ''Please follow the compilation output error results and try to resolve using search engines'')
      (js ''search engines'')"
    by code_simp
  show ?thesis
    using s by (simp add: classify_no_match analyzeErrorBlock_def)
qed

theorem no_match_default_witness:
  "\<not> list_ex (\<lambda>q. test (pattern q) (join [js ''foo.c:3:1: error: expected expression''] [10]))
       ERROR_PATTERNS
   \<and> type (analyzeErrorBlock [js ''foo.c:3:1: error: expected expression'']) = js ''Uncommon Error''"
proof -
  have h: "\<not> list_ex (\<lambda>q. test (pattern q) (join [js ''foo.c:3:1: error: expected expression''] [10]))
       ERROR_PATTERNS"
    by code_simp
  show ?thesis
    using h
      no_match_default [of "join [js ''foo.c:3:1: error: expected expression''] [10]"
        ERROR_PATTERNS "[js ''foo.c:3:1: error: expected expression'']"]
    by simp
qed

text \<open>
  C6. Anywhere in a log, a line that passes the start test, then lines that do not pass it
  and are not blank, then a blank line: one error block with the first line and all of
  the others, between the blocks of what comes before and of what comes after. And a line
  that passes the start test right after another one: the first block has its own line
  only, and the next block starts with the second line.
\<close>

theorem greedy_continuation:
  "(test errorStart t \<and> list_all (\<lambda>l. \<not> test errorStart l \<and> trim l \<noteq> []) ls \<and> trim b = []
      \<longrightarrow> errorBlocks (scanLines (pre @ t # ls @ b # post))
            = errorBlocks (scanLines pre) @ [mkBlock (t # ls)] @ errorBlocks (scanLines post)
          \<and> lines (mkBlock (t # ls)) = t # ls)
   \<and> (test errorStart t1 \<and> test errorStart t2
      \<longrightarrow> errorBlocks (scanLines (pre @ t1 # t2 # post))
            = errorBlocks (scanLines pre) @ [mkBlock [t1]] @ errorBlocks (scanLines (t2 # post))
          \<and> lines (mkBlock [t1]) = [t1]
          \<and> errorBlocks (scanLines (t2 # post))
            = mkBlock (t2 # takeWhile (\<lambda>l. \<not> test errorStart l \<and> trim l \<noteq> []) post)
              # errorBlocks (scanLines (dropWhile (\<lambda>l. \<not> test errorStart l \<and> trim l \<noteq> []) post)))"
proof (intro conjI impI)
  let ?P = "\<lambda>l. \<not> test errorStart l \<and> trim l \<noteq> []"
  assume a: "test errorStart t \<and> list_all ?P ls \<and> trim b = []"
  then have t: "test errorStart t" and ls: "list_all ?P ls" and b: "trim b = []" by blast+
  from ls b have tw: "takeWhile ?P (ls @ b # post) = ls"
    by (simp add: list_all_iff)
  from ls b have dw: "dropWhile ?P (ls @ b # post) = b # post"
    by (simp add: list_all_iff)
  have "blocksFrom [t] True (ls @ b # post) = mkBlock (t # ls) # blocksFrom [] False post"
    using blocksFrom_open [of "[t]" "ls @ b # post"] blocksFrom_skip_blank [OF b, of post]
    by (simp only: tw dw) simp
  then show "errorBlocks (scanLines (pre @ t # ls @ b # post))
      = errorBlocks (scanLines pre) @ [mkBlock (t # ls)] @ errorBlocks (scanLines post)"
    by (simp add: errorBlocks_scanLines blocksFrom_trigger_after [OF t])
  show "lines (mkBlock (t # ls)) = t # ls" by (simp add: mkBlock_def)
next
  assume a: "test errorStart t1 \<and> test errorStart t2"
  then have t1: "test errorStart t1" and t2: "test errorStart t2" by blast+
  have "blocksFrom [t1] True (t2 # post) = mkBlock [t1] # blocksFrom [t2] True post"
    using t2 by simp
  moreover have "blocksFrom [] False (t2 # post) = blocksFrom [t2] True post"
    using t2 by simp
  ultimately show "errorBlocks (scanLines (pre @ t1 # t2 # post))
      = errorBlocks (scanLines pre) @ [mkBlock [t1]] @ errorBlocks (scanLines (t2 # post))"
    by (simp add: errorBlocks_scanLines blocksFrom_trigger_after [OF t1])
next
  show "lines (mkBlock [t1]) = [t1]" by (simp add: mkBlock_def)
next
  assume a: "test errorStart t1 \<and> test errorStart t2"
  then have t2: "test errorStart t2" by blast
  have "blocksFrom [] False (t2 # post) = blocksFrom [t2] True post"
    using t2 by simp
  then show "errorBlocks (scanLines (t2 # post))
      = mkBlock (t2 # takeWhile (\<lambda>l. \<not> test errorStart l \<and> trim l \<noteq> []) post)
        # errorBlocks (scanLines (dropWhile (\<lambda>l. \<not> test errorStart l \<and> trim l \<noteq> []) post))"
    using blocksFrom_open [of "[t2]" post] by (simp add: errorBlocks_scanLines)
qed

theorem greedy_continuation_witness:
  "test errorStart (js ''a.c:1:5: error: expected ;'')
   \<and> list_all (\<lambda>l. \<not> test errorStart l \<and> trim l \<noteq> []) [js ''  int x'', js ''  CC b.o'']
   \<and> trim [32, 13] = []
   \<and> test errorStart (js ''ld: undefined reference to f'')
   \<and> map lines (errorBlocks (scanLines
        ([js ''  CC a.o''] @ js ''a.c:1:5: error: expected ;'' # [js ''  int x'', js ''  CC b.o'']
          @ [32, 13] # [js ''  LD vmlinux''])))
       = [[js ''a.c:1:5: error: expected ;'', js ''  int x'', js ''  CC b.o'']]
   \<and> map lines (errorBlocks (scanLines
        ([js ''  CC a.o''] @ js ''a.c:1:5: error: expected ;'' # js ''ld: undefined reference to f''
          # [js ''  LD vmlinux''])))
       = [[js ''a.c:1:5: error: expected ;''], [js ''ld: undefined reference to f'', js ''  LD vmlinux'']]"
proof -
  let ?t = "js ''a.c:1:5: error: expected ;''" and ?u = "js ''ld: undefined reference to f''"
  let ?ls = "[js ''  int x'', js ''  CC b.o'']"
  have t: "test errorStart ?t" by code_simp
  have u: "test errorStart ?u" by code_simp
  have ls: "list_all (\<lambda>l. \<not> test errorStart l \<and> trim l \<noteq> []) ?ls" by code_simp
  have b: "trim [32, 13] = []" by code_simp
  have pre: "errorBlocks (scanLines [js ''  CC a.o'']) = []" by code_simp
  have post: "errorBlocks (scanLines [js ''  LD vmlinux'']) = []" by code_simp
  have tw: "takeWhile (\<lambda>l. \<not> test errorStart l \<and> trim l \<noteq> []) [js ''  LD vmlinux'']
      = [js ''  LD vmlinux'']" by code_simp
  have dw: "dropWhile (\<lambda>l. \<not> test errorStart l \<and> trim l \<noteq> []) [js ''  LD vmlinux''] = []"
    by code_simp
  have e: "errorBlocks (scanLines []) = []" by code_simp
  from t u ls b
    greedy_continuation [of ?t ?ls "[32, 13]" "[js ''  CC a.o'']" "[js ''  LD vmlinux'']" ?t ?u]
  show ?thesis
    by (simp only: pre post tw dw e simp_thms append_Nil append_Nil2 list.map append_Cons)
      (simp add: mkBlock_def)
qed

text \<open>
  C7. On a path that is not in the file system the engine emits one error message that
  names the path, returns 0, writes no file and returns normally.
\<close>

theorem missing_log:
  assumes "files w logFile = None"
  shows "snd (analyzeErrors w logFile) = 0
       \<and> trace (fst (analyzeErrors w logFile))
           = trace w @ [Error (js ''Log file '' @ [39] @ logFile @ [39] @ js '' does not exist.'')]
       \<and> fileWrites (drop (length (trace w)) (trace (fst (analyzeErrors w logFile)))) = []
       \<and> files (fst (analyzeErrors w logFile)) = files w"
  using assms by (simp add: analyzeErrors_missing fileWrites_def)

theorem missing_log_witness:
  "files (onlyLog (js ''build.log'') scenarioLog) (js ''out/build.log'') = None
   \<and> snd (analyzeErrors (onlyLog (js ''build.log'') scenarioLog) (js ''out/build.log'')) = 0
   \<and> files (fst (analyzeErrors (onlyLog (js ''build.log'') scenarioLog) (js ''out/build.log'')))
       (js ''have_error'') = None"
proof -
  have h: "files (onlyLog (js ''build.log'') scenarioLog) (js ''out/build.log'') = None"
    by (simp add: onlyLog_def js_def)
  have m: "files (onlyLog (js ''build.log'') scenarioLog) (js ''have_error'') = None"
    by (simp add: onlyLog_def js_def)
  show ?thesis
    using h m missing_log [OF h] by simp
qed

text \<open>
  C8, as the specification states it, fails: a tab before \<open>error:\<close> passes the start test
  of the code, and the line contains none of the three strings of the specification.
\<close>

theorem trigger_shapes_counterexample:
  "test errorStart (js ''make:'' @ [9] @ js ''error: stop'')
   \<and> \<not> specTrigger (js ''make:'' @ [9] @ js ''error: stop'')"
  by code_simp

text \<open>
  C8, amended. A line passes the start test exactly when, letter case ignored, it has a
  whitespace character followed at once by \<open>error:\<close>, or a whitespace character followed at
  once by \<open>fatal error:\<close>, or it contains \<open>undefined reference to\<close>; the three strings of the
  specification are among these lines. A line that passes opens a new error block with the
  line as its only line and adds 1 to the count; a line that does not pass leaves the
  count alone and opens nothing: after it a block is open only if one was open before,
  and then it is this block with the line added.
\<close>

theorem trigger_shapes:
  "(test errorStart line
      \<longleftrightarrow> spaceThenCI (js ''error:'') line \<or> spaceThenCI (js ''fatal error:'') line
         \<or> occursCI (js ''undefined reference to'') line)
   \<and> (specTrigger line \<longrightarrow> test errorStart line)
   \<and> (test errorStart line
      \<longrightarrow> step st line = \<lparr>errorCount = errorCount st + 1, errorBlocks = saveBlock st,
                            currentErrorLines = [line], processingError = True\<rparr>)
   \<and> (\<not> test errorStart line
      \<longrightarrow> errorCount (step st line) = errorCount st
          \<and> (processingError (step st line)
              \<longrightarrow> processingError st
                  \<and> currentErrorLines (step st line) = currentErrorLines st @ [line]))"
proof (intro conjI impI)
  show "test errorStart line
      \<longleftrightarrow> spaceThenCI (js ''error:'') line \<or> spaceThenCI (js ''fatal error:'') line
         \<or> occursCI (js ''undefined reference to'') line"
    by (rule test_errorStart_iff)
next
  assume "specTrigger line"
  then show "test errorStart line" by (rule specTrigger_test)
next
  assume "test errorStart line"
  then show "step st line = \<lparr>errorCount = errorCount st + 1, errorBlocks = saveBlock st,
      currentErrorLines = [line], processingError = True\<rparr>"
    by (rule step_trigger)
next
  assume "\<not> test errorStart line"
  then show "errorCount (step st line) = errorCount st" by (simp add: step_def)
next
  assume "\<not> test errorStart line" and "processingError (step st line)"
  then show "processingError st" by (auto simp: step_def split: if_splits)
next
  assume "\<not> test errorStart line" and "processingError (step st line)"
  then show "currentErrorLines (step st line) = currentErrorLines st @ [line]"
    by (auto simp: step_def split: if_splits)
qed

theorem trigger_shapes_witness:
  "specTrigger (js ''drivers/x.c:9:2: Fatal Error: x.h: missing'')
   \<and> test errorStart (js ''drivers/x.c:9:2: Fatal Error: x.h: missing'')
   \<and> step initial (js ''drivers/x.c:9:2: Fatal Error: x.h: missing'')
       = \<lparr>errorCount = 1, errorBlocks = [],
          currentErrorLines = [js ''drivers/x.c:9:2: Fatal Error: x.h: missing''],
          processingError = True\<rparr>
   \<and> \<not> test errorStart (js ''  CC      drivers/x.o'')
   \<and> errorCount (step initial (js ''  CC      drivers/x.o'')) = 0
   \<and> \<not> processingError (step initial (js ''  CC      drivers/x.o''))
   \<and> processingError
        (step (step initial (js ''drivers/x.c:9:2: Fatal Error: x.h: missing''))
          (js ''  CC      drivers/x.o''))
   \<and> currentErrorLines
        (step (step initial (js ''drivers/x.c:9:2: Fatal Error: x.h: missing''))
          (js ''  CC      drivers/x.o''))
       = [js ''drivers/x.c:9:2: Fatal Error: x.h: missing'', js ''  CC      drivers/x.o'']
   \<and> errorCount
        (step (step initial (js ''drivers/x.c:9:2: Fatal Error: x.h: missing''))
          (js ''  CC      drivers/x.o'')) = 1"
proof -
  let ?t = "js ''drivers/x.c:9:2: Fatal Error: x.h: missing''" and ?l = "js ''  CC      drivers/x.o''"
  have s: "specTrigger ?t" by code_simp
  have n: "\<not> test errorStart ?l" by code_simp
  have i: "errorCount initial = 0 \<and> saveBlock initial = [] \<and> \<not> processingError initial"
    by (simp add: initial_def saveBlock_def)
  have p: "processingError (step (step initial ?t) ?l)" by code_simp
  show ?thesis
    using s n i p
      trigger_shapes [of ?t initial]
      trigger_shapes [of ?l initial]
      trigger_shapes [of ?l "step initial ?t"]
    by auto
qed

text \<open>
  C9. Two runs on logs of the same content, whatever the two file systems, the two paths
  and what was emitted before: they return the same count, emit the same events after the
  line that names the file, and both write the marker or both leave the files as they are.
\<close>

theorem same_content_same_outcome:
  assumes "files w1 logFile1 = Some content" and "files w2 logFile2 = Some content"
  shows "snd (analyzeErrors w1 logFile1) = snd (analyzeErrors w2 logFile2)
       \<and> trace (fst (analyzeErrors w1 logFile1))
           = trace w1 @ Info (js ''Analyzing log file: '' @ logFile1) # report content
       \<and> trace (fst (analyzeErrors w2 logFile2))
           = trace w2 @ Info (js ''Analyzing log file: '' @ logFile2) # report content
       \<and> fileWrites (drop (length (trace w1)) (trace (fst (analyzeErrors w1 logFile1))))
           = fileWrites (drop (length (trace w2)) (trace (fst (analyzeErrors w2 logFile2))))
       \<and> (files (fst (analyzeErrors w1 logFile1)) = (files w1)(js ''have_error'' \<mapsto> [])
            \<and> files (fst (analyzeErrors w2 logFile2)) = (files w2)(js ''have_error'' \<mapsto> [])
          \<or> files (fst (analyzeErrors w1 logFile1)) = files w1
            \<and> files (fst (analyzeErrors w2 logFile2)) = files w2)"
proof -
  let ?n = "errorCount (scanLines (split content))"
  have r: "snd (analyzeErrors w1 logFile1) = snd (analyzeErrors w2 logFile2)"
    by (simp only: result_analyzeErrors [OF assms(1)] result_analyzeErrors [OF assms(2)])
  have d: "fileWrites (drop (length (trace w1)) (trace (fst (analyzeErrors w1 logFile1))))
      = fileWrites (drop (length (trace w2)) (trace (fst (analyzeErrors w2 logFile2))))"
    by (simp only: fileWrites_analyzeErrors [OF assms(1)] fileWrites_analyzeErrors [OF assms(2)])
  have f: "files (fst (analyzeErrors w1 logFile1)) = (files w1)(js ''have_error'' \<mapsto> [])
        \<and> files (fst (analyzeErrors w2 logFile2)) = (files w2)(js ''have_error'' \<mapsto> [])
      \<or> files (fst (analyzeErrors w1 logFile1)) = files w1
        \<and> files (fst (analyzeErrors w2 logFile2)) = files w2"
    by (cases "?n > 0")
      (simp_all only: files_analyzeErrors [OF assms(1)] files_analyzeErrors [OF assms(2)]
        if_True if_False simp_thms)
  from r trace_analyzeErrors [OF assms(1)] trace_analyzeErrors [OF assms(2)] d f
  show ?thesis by (intro conjI)
qed

theorem same_content_same_outcome_witness:
  "files (onlyLog (js ''build.log'') scenarioLog) (js ''build.log'') = Some scenarioLog
   \<and> files \<lparr>files = [js ''out/build.log'' \<mapsto> scenarioLog], trace = [Info (js ''make'')]\<rparr>
        (js ''out/build.log'') = Some scenarioLog
   \<and> snd (analyzeErrors (onlyLog (js ''build.log'') scenarioLog) (js ''build.log''))
       = snd (analyzeErrors \<lparr>files = [js ''out/build.log'' \<mapsto> scenarioLog], trace = [Info (js ''make'')]\<rparr>
               (js ''out/build.log''))"
proof -
  let ?w2 = "\<lparr>files = [js ''out/build.log'' \<mapsto> scenarioLog], trace = [Info (js ''make'')]\<rparr>"
  have h1: "files (onlyLog (js ''build.log'') scenarioLog) (js ''build.log'') = Some scenarioLog"
    by (simp add: onlyLog_def)
  have h2: "files ?w2 (js ''out/build.log'') = Some scenarioLog"
    by simp
  show ?thesis
    using h1 h2 same_content_same_outcome [OF h1 h2] by simp
qed

text \<open>
  C10. A line that contains \<open>note:\<close>, and a line that matches \<open>make[n]:\<close> and contains
  \<open>***\<close>, has a non-empty trim; so the segmenter whose only continuation rule is the
  non-empty trim takes the same step on every line and ends in the same state, with the
  same error blocks, on every log.
\<close>

theorem special_clauses_redundant:
  "(includes_str line (js ''note:'') \<longrightarrow> trim line \<noteq> [])
   \<and> (test makeLine line \<and> includes_str line (js ''***'') \<longrightarrow> trim line \<noteq> [])
   \<and> stepTrimOnly st line = step st line
   \<and> scanTrimOnly ls = scanLines ls"
  by (simp add: note_nonblank stars_nonblank stepTrimOnly_eq scanTrimOnly_def scanLines_def
      foldl_stepTrimOnly_eq)

theorem special_clauses_redundant_witness:
  "includes_str (js ''foo.h:3:5: note: declared here'') (js ''note:'')
   \<and> trim (js ''foo.h:3:5: note: declared here'') \<noteq> []
   \<and> test makeLine (js ''make[2]: *** [foo.o] Error 1'')
   \<and> includes_str (js ''make[2]: *** [foo.o] Error 1'') (js ''***'')
   \<and> trim (js ''make[2]: *** [foo.o] Error 1'') \<noteq> []"
proof -
  have h1: "includes_str (js ''foo.h:3:5: note: declared here'') (js ''note:'')"
    by code_simp
  have h2: "test makeLine (js ''make[2]: *** [foo.o] Error 1'')"
    by code_simp
  have h3: "includes_str (js ''make[2]: *** [foo.o] Error 1'') (js ''***'')"
    by code_simp
  show ?thesis
    using h1 h2 h3
      special_clauses_redundant [of "js ''foo.h:3:5: note: declared here''"]
      special_clauses_redundant [of "js ''make[2]: *** [foo.o] Error 1''"]
    by blast
qed


end
